theory Spec2Isabelle
  imports Complex_Main "HOL-Library.Word"
begin

section \<open>Data model\<close>

text \<open>
  A Python \<open>str\<close> is a sequence of Unicode code points, so \<open>len\<close> counts code points
  and a character is ASCII exactly when its code point is below 128. A \<open>bytes\<close> value is a
  sequence of 8-bit values. String literals of the source are written \<open>str ''...''\<close>.
\<close>

type_synonym pystr = "nat list"
type_synonym byte = "8 word"
type_synonym bytes = "byte list"

definition str :: "string \<Rightarrow> pystr" where
  "str s = map of_char s"

text \<open>The exceptions the controller can raise: the \<open>ValueError\<close> of
  \<open>build_command_frame\<close> and the \<open>UnicodeEncodeError\<close> of \<open>str.encode('ascii')\<close>.\<close>

datatype error = ValueError | UnicodeEncodeError

text \<open>The dict returned by \<open>parse_response_frame\<close>, one field per key.\<close>

record response =
  header_byte :: byte
  header_str :: pystr
  unit_no :: pystr
  channel_no :: pystr
  cmd_code :: pystr
  error_code :: "pystr option"
  text_data :: pystr

section \<open>Python primitives used by the controller\<close>

text \<open>\<open>xs[i:j]\<close>: a negative index counts from the end, and both ends are clipped to the
  sequence.\<close>

definition py_slice :: "'a list \<Rightarrow> int \<Rightarrow> int \<Rightarrow> 'a list" where
  "py_slice xs i j =
     (let n = int (length xs);
          lo = (if i < 0 then max (i + n) 0 else min i n);
          hi = (if j < 0 then max (j + n) 0 else min j n)
      in take (nat (hi - lo)) (drop (nat lo) xs))"

text \<open>\<open>s.isascii()\<close> and \<open>s.ljust(width, fill)\<close>.\<close>

definition isascii :: "pystr \<Rightarrow> bool" where
  "isascii s = list_all (\<lambda>c. c < 128) s"

definition ljust :: "pystr \<Rightarrow> nat \<Rightarrow> nat \<Rightarrow> pystr" where
  "ljust s width fill = s @ replicate (width - length s) fill"

text \<open>\<open>s.encode('ascii')\<close> raises on the first code point that is not below 128.\<close>

fun encode_ascii :: "pystr \<Rightarrow> error + bytes" where
  "encode_ascii [] = Inr []"
| "encode_ascii (c # cs) =
     (if c < 128
      then (case encode_ascii cs of Inl e \<Rightarrow> Inl e | Inr bs \<Rightarrow> Inr (of_nat c # bs))
      else Inl UnicodeEncodeError)"

text \<open>\<open>bs.decode('ascii', errors='ignore')\<close>: a byte that is not ASCII is skipped by the
  error handler, every other byte becomes the character with that code.\<close>

fun decode_ascii_ignore :: "bytes \<Rightarrow> pystr" where
  "decode_ascii_ignore [] = []"
| "decode_ascii_ignore (b # bs) =
     (if b < 128 then unat b # decode_ascii_ignore bs else decode_ascii_ignore bs)"

text \<open>The format \<open>02X\<close> on a byte: two upper-case hexadecimal digits.\<close>

definition hex_digit :: "nat \<Rightarrow> nat" where
  "hex_digit d = (if d < 10 then 48 + d else 55 + d)"

definition format_02X :: "byte \<Rightarrow> pystr" where
  "format_02X b = [hex_digit (unat b div 16), hex_digit (unat b mod 16)]"

section \<open>Frame codec\<close>

definition parse_header :: "byte \<Rightarrow> pystr" where
  "parse_header b =
     (if b = 0x02 then str ''STX''
      else if b = 0x06 then str ''ACK''
      else if b = 0x15 then str ''NAK''
      else str ''UNKNOWN(0x'' @ format_02X b @ str '')'')"

text \<open>\<open>build_command_frame\<close>: the length check on the command code comes first, then the
  fields are encoded in the order unit, channel, command, text; the text is encoded only
  when it is not empty.\<close>

definition build_command_frame :: "pystr \<Rightarrow> pystr \<Rightarrow> pystr \<Rightarrow> pystr \<Rightarrow> error + bytes" where
  "build_command_frame unit chan cmd txt =
     (if length cmd > 8 then Inl ValueError
      else
        let cmd' = (if length cmd < 8 then ljust cmd 8 (of_char CHR ''_'') else cmd) in
        (case encode_ascii unit of Inl e \<Rightarrow> Inl e | Inr u \<Rightarrow>
        (case encode_ascii chan of Inl e \<Rightarrow> Inl e | Inr c \<Rightarrow>
        (case encode_ascii cmd' of Inl e \<Rightarrow> Inl e | Inr k \<Rightarrow>
        (case (if txt \<noteq> [] then encode_ascii txt else Inr []) of Inl e \<Rightarrow> Inl e | Inr t \<Rightarrow>
           Inr ([0x05] @ u @ c @ k @ t @ [0x0D, 0x0A]))))))"

definition parse_response_frame :: "bytes \<Rightarrow> response option" where
  "parse_response_frame resp_bytes =
     (if length resp_bytes < 15 then None
      else
        let hb = resp_bytes ! 0;
            hs = parse_header hb;
            u = decode_ascii_ignore (py_slice resp_bytes 1 3);
            c = decode_ascii_ignore (py_slice resp_bytes 3 5);
            k = decode_ascii_ignore (py_slice resp_bytes 5 13)
        in if hb = 0x15 then
             (if length resp_bytes < 13 + 4 then None
              else Some \<lparr> header_byte = hb, header_str = hs, unit_no = u, channel_no = c,
                          cmd_code = k,
                          error_code = Some (decode_ascii_ignore (py_slice resp_bytes 13 15)),
                          text_data = [] \<rparr>)
           else
             Some \<lparr> header_byte = hb, header_str = hs, unit_no = u, channel_no = c,
                    cmd_code = k, error_code = None,
                    text_data = decode_ascii_ignore (py_slice resp_bytes 13 (- 2)) \<rparr>)"

section \<open>The serial link\<close>

text \<open>
  The controller owns a serial port and uses two of its operations, \<open>write\<close> and
  \<open>read_until\<close>. The port and the instrument behind it are an arbitrary deterministic
  machine: a state \<open>link\<close> of any type, changed by every write and every read. The
  field \<open>written\<close> records, in order, every frame handed to \<open>write\<close>. The
  \<open>print\<close> calls of the source are diagnostics and are left out.
\<close>

record 'd serial =
  link :: 'd
  on_write :: "bytes \<Rightarrow> 'd \<Rightarrow> 'd"
  on_read_until :: "bytes \<Rightarrow> 'd \<Rightarrow> bytes \<times> 'd"
  written :: "bytes list"

definition ser_write :: "bytes \<Rightarrow> 'd serial \<Rightarrow> 'd serial" where
  "ser_write frame s = s\<lparr> link := on_write s frame (link s), written := written s @ [frame] \<rparr>"

definition ser_read_until :: "bytes \<Rightarrow> 'd serial \<Rightarrow> bytes \<times> 'd serial" where
  "ser_read_until expected s =
     (case on_read_until s expected (link s) of (data, d) \<Rightarrow> (data, s\<lparr> link := d \<rparr>))"

definition CRLF :: bytes where
  "CRLF = [0x0D, 0x0A]"

text \<open>\<open>send_command\<close>: an exception of \<open>build_command_frame\<close> leaves before anything is
  written; \<open>None\<close> is returned both for an empty read and for a frame that does not
  parse.\<close>

definition send_command ::
  "pystr \<Rightarrow> pystr \<Rightarrow> pystr \<Rightarrow> pystr \<Rightarrow> 'd serial \<Rightarrow> (error + response option) \<times> 'd serial" where
  "send_command unit chan cmd txt s =
     (case build_command_frame unit chan cmd txt of
        Inl e \<Rightarrow> (Inl e, s)
      | Inr frame \<Rightarrow>
          (case ser_read_until CRLF (ser_write frame s) of (resp_bytes, s') \<Rightarrow>
             if resp_bytes = [] then (Inr None, s')
             else (case parse_response_frame resp_bytes of
                     None \<Rightarrow> (Inr None, s')
                   | Some parsed \<Rightarrow> (Inr (Some parsed), s'))))"

section \<open>Floating-point amounts and their format\<close>

text \<open>
  A Python \<open>float\<close> is an IEEE double: a NaN, an infinity with its sign, or a sign and a
  magnitude that is a rational number: \<open>Finite neg m\<close> stands for \<open>m\<close>, or \<open>- m\<close> when
  \<open>neg\<close> holds, with \<open>0 \<le> m\<close> (120.0 is \<open>Finite False 120\<close>, 0.5 is
  \<open>Finite False (1 / 2)\<close>). The format \<open>.3f\<close> prints the decimal with three
  places nearest to the exact value, a tie going to the even neighbour; the flag \<open>0\<close> and
  the width \<open>10\<close> then fill with zeros, between the sign and the digits, up to ten
  characters in all.
\<close>

datatype pyfloat = Finite bool rat | Infinite bool | NaN

fun digits10 :: "nat \<Rightarrow> pystr" where
  "digits10 n = (if n < 10 then [48 + n] else digits10 (n div 10) @ [48 + n mod 10])"

declare digits10.simps [simp del]

definition round_half_even :: "rat \<Rightarrow> nat" where
  "round_half_even x =
     (let f = nat \<lfloor>x\<rfloor>; r = x - of_nat f
      in if r < 1 / 2 then f else if 1 / 2 < r then f + 1 else if even f then f else f + 1)"

fun format_3f :: "pyfloat \<Rightarrow> pystr \<times> pystr" where
  "format_3f (Finite neg m) =
     (let n = round_half_even (m * 1000); frac = n mod 1000
      in (if neg then str ''-'' else [],
          digits10 (n div 1000) @ str ''.'' @
            [48 + frac div 100, 48 + frac div 10 mod 10, 48 + frac mod 10]))"
| "format_3f (Infinite neg) = (if neg then str ''-'' else [], str ''inf'')"
| "format_3f NaN = ([], str ''nan'')"

definition format_010_3f :: "pyfloat \<Rightarrow> pystr" where
  "format_010_3f x =
     (case format_3f x of (sign, body) \<Rightarrow>
        sign @ replicate (10 - length sign - length body) (of_char CHR ''0'') @ body)"

section \<open>Device operations\<close>

text \<open>\<open>get_current_weight\<close>: the built-in \<open>float\<close> that parses the text is a parameter,
  \<open>None\<close> standing for its \<open>ValueError\<close>.\<close>

definition get_current_weight ::
  "(pystr \<Rightarrow> pyfloat option) \<Rightarrow> pystr \<Rightarrow> pystr \<Rightarrow> 'd serial \<Rightarrow> (error + pyfloat option) \<times> 'd serial" where
  "get_current_weight float unit chan s =
     (case send_command unit chan (str ''GROSS___'') [] s of
        (Inl e, s') \<Rightarrow> (Inl e, s')
      | (Inr None, s') \<Rightarrow> (Inr None, s')
      | (Inr (Some resp), s') \<Rightarrow>
          if header_str resp = str ''NAK'' then (Inr None, s')
          else (Inr (float (text_data resp)), s'))"

definition cut_out_amount ::
  "pystr \<Rightarrow> pystr \<Rightarrow> pyfloat \<Rightarrow> 'd serial \<Rightarrow> (error + bool) \<times> 'd serial" where
  "cut_out_amount unit chan amount s =
     (let text_value = str ''+'' @ format_010_3f amount in
      case send_command unit chan (str ''FF______'') text_value s of
        (Inl e, s1) \<Rightarrow> (Inl e, s1)
      | (Inr None, s1) \<Rightarrow> (Inr False, s1)
      | (Inr (Some resp), s1) \<Rightarrow>
          if header_str resp = str ''NAK'' then (Inr False, s1)
          else (case send_command unit chan (str ''CFW_____'') [] s1 of
                  (Inl e, s2) \<Rightarrow> (Inl e, s2)
                | (Inr None, s2) \<Rightarrow> (Inr False, s2)
                | (Inr (Some resp2), s2) \<Rightarrow>
                    if header_str resp2 = str ''NAK'' then (Inr False, s2)
                    else (Inr True, s2)))"

definition discharge_all ::
  "pystr \<Rightarrow> pystr \<Rightarrow> 'd serial \<Rightarrow> (error + bool) \<times> 'd serial" where
  "discharge_all unit chan s =
     (case send_command unit chan (str ''FDIS____'') [] s of
        (Inl e, s') \<Rightarrow> (Inl e, s')
      | (Inr None, s') \<Rightarrow> (Inr False, s')
      | (Inr (Some resp), s') \<Rightarrow>
          if header_str resp = str ''NAK'' then (Inr False, s') else (Inr True, s'))"

section \<open>A scripted transport\<close>

text \<open>A port whose successive reads return the queued byte strings, and nothing (the
  timeout) once the queue is empty.\<close>

definition scripted_port :: "bytes list \<Rightarrow> bytes list serial" where
  "scripted_port replies =
     \<lparr> link = replies,
       on_write = (\<lambda>frame q. q),
       on_read_until = (\<lambda>expected q. case q of [] \<Rightarrow> ([], []) | r # rs \<Rightarrow> (r, rs)),
       written = [] \<rparr>"

section \<open>Basic facts about the primitives\<close>

lemma replicate_numeral_unfold: "replicate (numeral k) x = x # replicate (pred_numeral k) x"
  by (simp add: numeral_eq_Suc)

lemma encode_ascii_eq:
  "encode_ascii s = (if isascii s then Inr (map of_nat s) else Inl UnicodeEncodeError)"
  by (induction s) (auto simp: isascii_def)

lemma decode_ascii_ignore_filter:
  "decode_ascii_ignore bs = map unat (filter (\<lambda>b. b < 128) bs)"
  by (induction bs) auto

lemma ascii_byte_less: "c < 128 \<Longrightarrow> (of_nat c :: byte) < 128"
  by (simp add: word_less_nat_alt unat_of_nat)

lemma ascii_byte_unat: "c < 128 \<Longrightarrow> unat (of_nat c :: byte) = c"
  by (simp add: unat_of_nat)

lemma decode_encode_ascii: "isascii s \<Longrightarrow> decode_ascii_ignore (map of_nat s) = s"
  by (induction s) (simp_all add: isascii_def ascii_byte_less ascii_byte_unat)

lemma py_slice_nonneg:
  "0 \<le> i \<Longrightarrow> i \<le> j \<Longrightarrow> j \<le> int (length xs) \<Longrightarrow>
     py_slice xs i j = take (nat (j - i)) (drop (nat i) xs)"
  by (simp add: py_slice_def Let_def min_def)

lemma py_slice_text:
  "15 \<le> length xs \<Longrightarrow> py_slice xs 13 (- 2) = take (length xs - 15) (drop 13 xs)"
  by (simp add: py_slice_def Let_def min_def max_def nat_diff_distrib)

lemma parse_header_NAK_iff: "parse_header b = str ''NAK'' \<longleftrightarrow> b = 0x15"
  by (simp add: parse_header_def str_def)

section \<open>Length boundaries of the decoder\<close>

text \<open>
  C3: \<open>parse_response_frame\<close> returns \<open>None\<close> on every byte sequence shorter than 15
  bytes, and on every sequence that starts with NAK (0x15) and has 15 or 16 bytes; a
  sequence of exactly 17 bytes that starts with NAK parses, its error code being the
  decoded bytes 13 and 14 and its text empty.
\<close>

theorem parse_response_frame_length_boundary:
  "(length bs < 15 \<longrightarrow> parse_response_frame bs = None) \<and>
   (bs ! 0 = 0x15 \<and> 15 \<le> length bs \<and> length bs < 17 \<longrightarrow> parse_response_frame bs = None) \<and>
   (bs ! 0 = 0x15 \<and> length bs = 17 \<longrightarrow>
      (\<exists>r. parse_response_frame bs = Some r \<and>
           error_code r = Some (decode_ascii_ignore [bs ! 13, bs ! 14]) \<and>
           header_str r = str ''NAK'' \<and> text_data r = []))"
proof -
  have cut: "py_slice bs 13 15 = [bs ! 13, bs ! 14]" if "length bs = 17"
  proof -
    have "py_slice bs 13 15 = take 2 (drop 13 bs)"
      using that by (simp add: py_slice_nonneg)
    also have "\<dots> = [bs ! 13, bs ! 14]"
      using that by (simp add: list_eq_iff_nth_eq less_Suc_eq numeral_2_eq_2)
    finally show ?thesis .
  qed
  show ?thesis
    by (simp add: parse_response_frame_def Let_def cut parse_header_def)
qed

theorem parse_response_frame_length_boundary_witness:
  "parse_response_frame [0x02, 0x30, 0x30] = None \<and>
   parse_response_frame [0x15, 0x30, 0x30, 0x30, 0x31, 0x46, 0x46, 0x5F, 0x5F, 0x5F, 0x5F, 0x5F,
                         0x5F, 0x45, 0x31, 0x0A] = None \<and>
   (\<exists>r. parse_response_frame [0x15, 0x30, 0x30, 0x30, 0x31, 0x46, 0x46, 0x5F, 0x5F, 0x5F, 0x5F,
                              0x5F, 0x5F, 0x45, 0x31, 0x0D, 0x0A] = Some r \<and>
        error_code r = Some (str ''E1'') \<and> header_str r = str ''NAK'' \<and> text_data r = [])"
  using parse_response_frame_length_boundary [of "[0x02, 0x30, 0x30]"]
    parse_response_frame_length_boundary
      [of "[0x15, 0x30, 0x30, 0x30, 0x31, 0x46, 0x46, 0x5F, 0x5F, 0x5F, 0x5F, 0x5F,
            0x5F, 0x45, 0x31, 0x0A]"]
    parse_response_frame_length_boundary
      [of "[0x15, 0x30, 0x30, 0x30, 0x31, 0x46, 0x46, 0x5F, 0x5F, 0x5F, 0x5F, 0x5F,
            0x5F, 0x45, 0x31, 0x0D, 0x0A]"]
  by (simp add: str_def)

lemma isascii_Nil: "isascii []"
  by (simp add: isascii_def)

lemma isascii_ljust: "isascii (ljust s n c) = (isascii s \<and> (length s < n \<longrightarrow> c < 128))"
  by (auto simp: isascii_def ljust_def list_all_iff)

lemma ljust_long: "n \<le> length s \<Longrightarrow> ljust s n c = s"
  by (simp add: ljust_def)

lemma build_command_frame_eq:
  "build_command_frame unit chan cmd txt =
     (if 8 < length cmd then Inl ValueError
      else if isascii unit \<and> isascii chan \<and> isascii cmd \<and> isascii txt
      then Inr ([0x05] @ map of_nat unit @ map of_nat chan @
                map of_nat (ljust cmd 8 (of_char CHR ''_'')) @ map of_nat txt @ [0x0D, 0x0A])
      else Inl UnicodeEncodeError)"
  by (cases "length cmd < 8")
     (auto simp: build_command_frame_def encode_ascii_eq isascii_ljust ljust_long isascii_Nil)

section \<open>Padding of the command code\<close>

text \<open>
  C6: a command code shorter than 8 characters appears in the frame right-padded with
  \<open>_\<close> to 8 characters, one of exactly 8 characters appears unchanged, and one longer
  than 8 characters makes \<open>build_command_frame\<close> raise its \<open>ValueError\<close>, so
  that no frame is produced. The command field is the 8 bytes that follow the header byte,
  the unit number and the channel number. A frame is produced whenever the code has at
  most 8 characters and every field is ASCII.
\<close>

theorem build_command_frame_padding:
  "(length cmd < 8 \<and> build_command_frame unit chan cmd txt = Inr f \<longrightarrow>
      take 8 (drop (1 + length unit + length chan) f) =
        map of_nat (cmd @ replicate (8 - length cmd) (of_char CHR ''_''))) \<and>
   (length cmd = 8 \<and> build_command_frame unit chan cmd txt = Inr f \<longrightarrow>
      take 8 (drop (1 + length unit + length chan) f) = map of_nat cmd) \<and>
   (8 < length cmd \<longrightarrow> build_command_frame unit chan cmd txt = Inl ValueError) \<and>
   (length cmd \<le> 8 \<and> isascii unit \<and> isascii chan \<and> isascii cmd \<and> isascii txt \<longrightarrow>
      (\<exists>g. build_command_frame unit chan cmd txt = Inr g))"
  by (auto simp: build_command_frame_eq ljust_def split: if_splits)

theorem build_command_frame_padding_witness:
  "build_command_frame (str ''00'') (str ''01'') (str ''FF'') (str ''+1'') =
     Inr (map of_nat (5 # str ''0001FF______+1'') @ CRLF) \<and>
   take 8 (drop 5 (map of_nat (5 # str ''0001FF______+1'') @ CRLF)) = (map of_nat (str ''FF______'') :: bytes) \<and>
   build_command_frame (str ''00'') (str ''01'') (str ''GROSS___'') [] =
     Inr (map of_nat (5 # str ''0001GROSS___'') @ CRLF) \<and>
   take 8 (drop 5 (map of_nat (5 # str ''0001GROSS___'') @ CRLF)) = (map of_nat (str ''GROSS___'') :: bytes) \<and>
   build_command_frame (str ''00'') (str ''01'') (str ''GROSS____'') [] = Inl ValueError"
  using build_command_frame_padding
      [of "str ''FF''" "str ''00''" "str ''01''" "str ''+1''" "map of_nat (5 # str ''0001FF______+1'') @ CRLF"]
    build_command_frame_padding
      [of "str ''GROSS___''" "str ''00''" "str ''01''" "[]" "map of_nat (5 # str ''0001GROSS___'') @ CRLF"]
    build_command_frame_padding
      [of "str ''GROSS____''" "str ''00''" "str ''01''" "[]" "[]"]
  by (simp add: str_def build_command_frame_def ljust_def CRLF_def replicate_numeral_unfold)


lemma parse_response_frame_eq:
  "parse_response_frame bs =
     (if length bs < 15 \<or> (bs ! 0 = 0x15 \<and> length bs < 17) then None
      else Some \<lparr> header_byte = bs ! 0, header_str = parse_header (bs ! 0),
                  unit_no = decode_ascii_ignore (take 2 (drop 1 bs)),
                  channel_no = decode_ascii_ignore (take 2 (drop 3 bs)),
                  cmd_code = decode_ascii_ignore (take 8 (drop 5 bs)),
                  error_code = (if bs ! 0 = 0x15
                                then Some (decode_ascii_ignore (take 2 (drop 13 bs))) else None),
                  text_data = (if bs ! 0 = 0x15 then []
                               else decode_ascii_ignore (take (length bs - 15) (drop 13 bs))) \<rparr>)"
  by (simp add: parse_response_frame_def Let_def py_slice_nonneg py_slice_text)

section \<open>Lenient decoding\<close>

text \<open>
  C8: a response of at least 15 bytes whose header is not NAK always parses, whatever
  bytes its fields hold: the text is the bytes from offset 13 up to the last two, with
  every byte that is not ASCII left out and nothing put in its place, and the unit
  number, the channel number and the command code are decoded in the same way.
\<close>

theorem parse_response_frame_lenient:
  assumes "15 \<le> length bs" and "bs ! 0 \<noteq> 0x15"
  shows "\<exists>r. parse_response_frame bs = Some r \<and>
           text_data r = map unat (filter (\<lambda>b. b < 128) (take (length bs - 15) (drop 13 bs))) \<and>
           unit_no r = map unat (filter (\<lambda>b. b < 128) (take 2 (drop 1 bs))) \<and>
           channel_no r = map unat (filter (\<lambda>b. b < 128) (take 2 (drop 3 bs))) \<and>
           cmd_code r = map unat (filter (\<lambda>b. b < 128) (take 8 (drop 5 bs)))"
  using assms by (simp add: parse_response_frame_eq decode_ascii_ignore_filter)

theorem parse_response_frame_lenient_witness:
  "\<exists>r. parse_response_frame
          [0x02, 0x30, 0xFF, 0x30, 0x31, 0x47, 0x52, 0x4F, 0x53, 0x53, 0x5F, 0x5F, 0x5F,
           0x2B, 0x31, 0xE9, 0x32, 0x0D, 0x0A] = Some r \<and>
        text_data r = str ''+12'' \<and> unit_no r = str ''0'' \<and> channel_no r = str ''01'' \<and>
        cmd_code r = str ''GROSS___''"
  using parse_response_frame_lenient
    [of "[0x02, 0x30, 0xFF, 0x30, 0x31, 0x47, 0x52, 0x4F, 0x53, 0x53, 0x5F, 0x5F, 0x5F,
          0x2B, 0x31, 0xE9, 0x32, 0x0D, 0x0A]"]
  by (simp add: str_def)

section \<open>The terminator is never inspected\<close>

lemma field_of_prefix:
  assumes "k + n \<le> m" and "m \<le> length xs"
  shows "take n (drop k (take m xs @ ys)) = take n (drop k xs)"
proof -
  have "take n (drop k (take m xs @ ys)) = take n (drop k (take m xs))"
    using assms by simp
  also have "\<dots> = take n (drop k xs)"
    using assms by (simp add: drop_take)
  finally show ?thesis .
qed

text \<open>
  C9: the decoder never looks at the terminator. A sequence of at least 15 bytes that
  does not start with NAK parses, and replacing its last two bytes by any two bytes gives
  the same result; a sequence of at least 17 bytes that starts with NAK gives the same
  result when everything from offset 15 on is replaced by any two or more bytes. Decoding
  fails exactly on the two length conditions.
\<close>

theorem parse_response_frame_ignores_terminator:
  "(15 \<le> length bs \<and> bs ! 0 \<noteq> 0x15 \<longrightarrow>
      (\<exists>r. parse_response_frame bs = Some r \<and>
           text_data r = decode_ascii_ignore (take (length bs - 15) (drop 13 bs))) \<and>
      (\<forall>x y. parse_response_frame (take (length bs - 2) bs @ [x, y]) = parse_response_frame bs)) \<and>
   (17 \<le> length bs \<and> bs ! 0 = 0x15 \<longrightarrow>
      (\<forall>rest. 2 \<le> length rest \<longrightarrow>
          parse_response_frame (take 15 bs @ rest) = parse_response_frame bs)) \<and>
   (parse_response_frame bs = None \<longleftrightarrow>
      length bs < 15 \<or> (bs ! 0 = 0x15 \<and> length bs < 17))"
proof (intro conjI impI allI)
  show "parse_response_frame bs = None \<longleftrightarrow> length bs < 15 \<or> (bs ! 0 = 0x15 \<and> length bs < 17)"
    by (simp add: parse_response_frame_eq)
next
  assume "15 \<le> length bs \<and> bs ! 0 \<noteq> 0x15"
  then show "\<exists>r. parse_response_frame bs = Some r \<and>
           text_data r = decode_ascii_ignore (take (length bs - 15) (drop 13 bs))"
    by (simp add: parse_response_frame_eq)
next
  fix x y
  assume h: "15 \<le> length bs \<and> bs ! 0 \<noteq> 0x15"
  let ?cs = "take (length bs - 2) bs @ [x, y]"
  have len: "length ?cs = length bs"
    using h by (simp add: min_def) arith
  have hd: "?cs ! 0 = bs ! 0"
    using h by (simp add: nth_append)
  have fld: "take n (drop k ?cs) = take n (drop k bs)" if "k + n \<le> length bs - 2" for n k
    using that by (rule field_of_prefix) simp
  have f1: "take 2 (drop 1 ?cs) = take 2 (drop 1 bs)"
    by (rule fld) (use h in arith)
  have f2: "take 2 (drop 3 ?cs) = take 2 (drop 3 bs)"
    by (rule fld) (use h in arith)
  have f3: "take 8 (drop 5 ?cs) = take 8 (drop 5 bs)"
    by (rule fld) (use h in arith)
  have f4: "take (length bs - 15) (drop 13 ?cs) = take (length bs - 15) (drop 13 bs)"
    by (rule fld) (use h in arith)
  have "parse_response_frame ?cs = parse_response_frame bs"
    unfolding parse_response_frame_eq [of ?cs] parse_response_frame_eq [of bs] len hd f1 f2 f3 f4
    using h by simp
  then show "parse_response_frame ?cs = parse_response_frame bs" .
next
  fix rest :: bytes
  assume h: "17 \<le> length bs \<and> bs ! 0 = 0x15" and r: "2 \<le> length rest"
  let ?cs = "take 15 bs @ rest"
  have len: "17 \<le> length ?cs"
    using h r by simp
  have hd: "?cs ! 0 = bs ! 0"
    using h by (simp add: nth_append)
  have fld: "take n (drop k ?cs) = take n (drop k bs)" if "k + n \<le> 15" for n k
    using that by (rule field_of_prefix) (use h in simp)
  have f1: "take 2 (drop 1 ?cs) = take 2 (drop 1 bs)"
    by (rule fld) simp
  have f2: "take 2 (drop 3 ?cs) = take 2 (drop 3 bs)"
    by (rule fld) simp
  have f3: "take 8 (drop 5 ?cs) = take 8 (drop 5 bs)"
    by (rule fld) simp
  have f4: "take 2 (drop 13 ?cs) = take 2 (drop 13 bs)"
    by (rule fld) simp
  have "parse_response_frame ?cs = parse_response_frame bs"
    unfolding parse_response_frame_eq [of ?cs] parse_response_frame_eq [of bs] hd f1 f2 f3 f4
    using h len by simp
  then show "parse_response_frame ?cs = parse_response_frame bs" .
qed


theorem parse_response_frame_ignores_terminator_witness:
  "(\<exists>r. parse_response_frame
          [0x06, 0x30, 0x30, 0x30, 0x31, 0x47, 0x52, 0x4F, 0x53, 0x53, 0x5F, 0x5F, 0x5F,
           0x2B, 0x31, 0x58, 0x59] = Some r \<and> text_data r = str ''+1'') \<and>
   parse_response_frame
          [0x06, 0x30, 0x30, 0x30, 0x31, 0x47, 0x52, 0x4F, 0x53, 0x53, 0x5F, 0x5F, 0x5F,
           0x2B, 0x31, 0x0D, 0x0A] =
   parse_response_frame
          [0x06, 0x30, 0x30, 0x30, 0x31, 0x47, 0x52, 0x4F, 0x53, 0x53, 0x5F, 0x5F, 0x5F,
           0x2B, 0x31, 0x58, 0x59] \<and>
   parse_response_frame
          [0x15, 0x30, 0x30, 0x30, 0x31, 0x47, 0x52, 0x4F, 0x53, 0x53, 0x5F, 0x5F, 0x5F,
           0x45, 0x31, 0x00, 0x00] =
   parse_response_frame
          [0x15, 0x30, 0x30, 0x30, 0x31, 0x47, 0x52, 0x4F, 0x53, 0x53, 0x5F, 0x5F, 0x5F,
           0x45, 0x31, 0x37, 0x38, 0x39, 0x0D, 0x0A] \<and>
   parse_response_frame
          [0x15, 0x30, 0x30, 0x30, 0x31, 0x47, 0x52, 0x4F, 0x53, 0x53, 0x5F, 0x5F, 0x5F,
           0x45, 0x31, 0x37, 0x38, 0x39, 0x0D, 0x0A] \<noteq> None"
proof -
  let ?ack = "[0x06, 0x30, 0x30, 0x30, 0x31, 0x47, 0x52, 0x4F, 0x53, 0x53, 0x5F, 0x5F, 0x5F,
               0x2B, 0x31, 0x58, 0x59] :: bytes"
  let ?nak = "[0x15, 0x30, 0x30, 0x30, 0x31, 0x47, 0x52, 0x4F, 0x53, 0x53, 0x5F, 0x5F, 0x5F,
               0x45, 0x31, 0x37, 0x38, 0x39, 0x0D, 0x0A] :: bytes"
  have ha: "15 \<le> length ?ack \<and> ?ack ! 0 \<noteq> 0x15"
    by simp
  have hn: "17 \<le> length ?nak \<and> ?nak ! 0 = 0x15"
    by simp
  have nn: "\<not> (length ?nak < 15 \<or> (?nak ! 0 = 0x15 \<and> length ?nak < 17))"
    by simp
  have two: "2 \<le> length [0x00, 0x00 :: byte]"
    by simp
  note t1 = parse_response_frame_ignores_terminator [of ?ack]
  note t2 = parse_response_frame_ignores_terminator [of ?nak]
  from t1 ha have a1: "\<exists>r. parse_response_frame ?ack = Some r \<and>
      text_data r = decode_ascii_ignore (take (length ?ack - 15) (drop 13 ?ack))"
    by blast
  from t1 ha have a2: "parse_response_frame (take (length ?ack - 2) ?ack @ [0x0D, 0x0A]) =
      parse_response_frame ?ack"
    by blast
  from t2 hn two have n1: "parse_response_frame (take 15 ?nak @ [0x00, 0x00]) =
      parse_response_frame ?nak"
    by blast
  from t2 nn have n2: "parse_response_frame ?nak \<noteq> None"
    by blast
  have d: "decode_ascii_ignore (take (length ?ack - 15) (drop 13 ?ack)) = str ''+1''"
    by (simp add: str_def)
  have p1: "take (length ?ack - 2) ?ack @ [0x0D, 0x0A] =
      [0x06, 0x30, 0x30, 0x30, 0x31, 0x47, 0x52, 0x4F, 0x53, 0x53, 0x5F, 0x5F, 0x5F,
       0x2B, 0x31, 0x0D, 0x0A]"
    by simp
  have p2: "take 15 ?nak @ [0x00, 0x00] =
      [0x15, 0x30, 0x30, 0x30, 0x31, 0x47, 0x52, 0x4F, 0x53, 0x53, 0x5F, 0x5F, 0x5F,
       0x45, 0x31, 0x00, 0x00]"
    by simp
  from a1 a2 n1 n2 show ?thesis
    unfolding d p1 p2 by (intro conjI)
qed

section \<open>Round trip through the codec\<close>

text \<open>
  A command code of at most 8 characters need not be ASCII: with the unit number \<open>00\<close>,
  the channel number \<open>01\<close>, no text and the one-character command code U+00E9, every
  other field is as required, yet \<open>build_command_frame\<close> raises
  \<open>UnicodeEncodeError\<close> when it encodes the padded code, so there is no frame to decode.
\<close>

theorem frame_round_trip_counterexample:
  "length (str ''00'') = 2 \<and> isascii (str ''00'') \<and>
   length (str ''01'') = 2 \<and> isascii (str ''01'') \<and>
   length [233 :: nat] \<le> 8 \<and> isascii [] \<and>
   build_command_frame (str ''00'') (str ''01'') [233] [] = Inl UnicodeEncodeError"
  by (simp add: build_command_frame_def str_def isascii_def ljust_def)

text \<open>
  C2: for a unit number and a channel number of exactly two ASCII characters each, an
  ASCII command code of at most 8 characters and an ASCII text, \<open>build_command_frame\<close>
  returns a frame, and decoding that frame gives back the unit number, the channel number
  and the command code right-padded with \<open>_\<close> to 8 characters.
\<close>

theorem frame_round_trip:
  assumes "length unit = 2" and "isascii unit" and "length chan = 2" and "isascii chan"
    and "length cmd \<le> 8" and "isascii cmd" and "isascii txt"
  shows "\<exists>f r. build_command_frame unit chan cmd txt = Inr f \<and>
           parse_response_frame f = Some r \<and> unit_no r = unit \<and> channel_no r = chan \<and>
           cmd_code r = ljust cmd 8 (of_char CHR ''_'')"
proof -
  let ?k = "ljust cmd 8 (of_char CHR ''_'')"
  define f :: bytes
    where "f = [0x05] @ map of_nat unit @ map of_nat chan @ map of_nat ?k @
                 map of_nat txt @ [0x0D, 0x0A]"
  have b: "build_command_frame unit chan cmd txt = Inr f"
    using assms by (simp add: build_command_frame_eq f_def)
  have klen: "length ?k = 8"
    using assms by (simp add: ljust_def)
  have kasc: "isascii ?k"
    using assms by (simp add: isascii_ljust)
  have len: "length f = 15 + length txt"
    using assms klen by (simp add: f_def)
  have hd: "f ! 0 = 0x05"
    by (simp add: f_def)
  have u: "take 2 (drop 1 f) = map of_nat unit"
    using assms by (simp add: f_def)
  have c: "take 2 (drop 3 f) = map of_nat chan"
    using assms by (simp add: f_def)
  have k: "take 8 (drop 5 f) = map of_nat ?k"
    using assms klen by (simp add: f_def)
  have "\<exists>r. parse_response_frame f = Some r \<and> unit_no r = unit \<and> channel_no r = chan \<and>
           cmd_code r = ?k"
    unfolding parse_response_frame_eq [of f] u c k hd len
    using assms kasc by (simp add: decode_encode_ascii)
  with b show ?thesis
    by blast
qed

theorem frame_round_trip_witness:
  "\<exists>f r. build_command_frame (str ''00'') (str ''01'') (str ''FF'') (str ''+1'') = Inr f \<and>
         parse_response_frame f = Some r \<and> unit_no r = str ''00'' \<and> channel_no r = str ''01'' \<and>
         cmd_code r = str ''FF______''"
proof -
  have pad: "ljust (str ''FF'') 8 (of_char CHR ''_'') = str ''FF______''"
    by (simp add: str_def ljust_def replicate_numeral_unfold)
  have "length (str ''00'') = 2" and "isascii (str ''00'')"
    and "length (str ''01'') = 2" and "isascii (str ''01'')"
    and "length (str ''FF'') \<le> 8" and "isascii (str ''FF'')" and "isascii (str ''+1'')"
    by (simp_all add: str_def isascii_def)
  from frame_round_trip [OF this] show ?thesis
    unfolding pad .
qed

section \<open>Characters that are not ASCII\<close>

text \<open>
  The check on the length of the command code runs before any field is encoded: with a
  unit number that is not ASCII and a command code of nine characters the exception is
  the \<open>ValueError\<close>, not an encoding error.
\<close>

theorem build_command_frame_non_ascii_counterexample:
  "\<not> isascii [233] \<and>
   build_command_frame [233] (str ''00'') (str ''GROSS____'') [] = Inl ValueError \<and>
   Inl ValueError \<noteq> (Inl UnicodeEncodeError :: error + bytes)"
  by (simp add: build_command_frame_def isascii_def str_def)

text \<open>
  C10: whenever the unit number, the channel number or the text holds a character that is
  not ASCII, \<open>build_command_frame\<close> raises and returns no frame, and \<open>send_command\<close>
  leaves the port as it was, nothing written: the exception is \<open>UnicodeEncodeError\<close>
  when the command code has at most 8 characters and the \<open>ValueError\<close> of the length
  check otherwise.
\<close>

theorem build_command_frame_non_ascii:
  assumes "\<not> isascii unit \<or> \<not> isascii chan \<or> \<not> isascii txt"
  shows "build_command_frame unit chan cmd txt =
           Inl (if 8 < length cmd then ValueError else UnicodeEncodeError) \<and>
         send_command unit chan cmd txt s =
           (Inl (if 8 < length cmd then ValueError else UnicodeEncodeError), s)"
  using assms by (auto simp: send_command_def build_command_frame_eq)

theorem build_command_frame_non_ascii_witness:
  "build_command_frame [233] (str ''00'') (str ''GROSS___'') [] = Inl UnicodeEncodeError \<and>
   build_command_frame (str ''00'') (str ''01'') (str ''GROSS____'') [0x20AC] = Inl ValueError \<and>
   send_command (str ''00'') [48, 956] (str ''FF'') [] (scripted_port []) =
     (Inl UnicodeEncodeError, scripted_port [])"
proof -
  have a: "\<not> isascii [233] \<or> \<not> isascii (str ''00'') \<or> \<not> isascii []"
    and b: "\<not> isascii (str ''00'') \<or> \<not> isascii (str ''01'') \<or> \<not> isascii [0x20AC]"
    and c: "\<not> isascii (str ''00'') \<or> \<not> isascii [48, 956] \<or> \<not> isascii []"
    by (simp_all add: isascii_def)
  have l8: "\<not> 8 < length (str ''GROSS___'')" and l9: "8 < length (str ''GROSS____'')"
    and l2: "\<not> 8 < length (str ''FF'')"
    by (simp_all add: str_def)
  from build_command_frame_non_ascii [OF a, of "str ''GROSS___''" "scripted_port []"]
    build_command_frame_non_ascii [OF b, of "str ''GROSS____''" "scripted_port []"]
    build_command_frame_non_ascii [OF c, of "str ''FF''" "scripted_port []"]
  show ?thesis
    by (simp only: l8 l9 l2 if_True if_False simp_thms)
qed

section \<open>One exchange\<close>

lemma written_ser_write: "written (ser_write f s) = written s @ [f]"
  by (simp add: ser_write_def)

lemma written_ser_read_until: "written (snd (ser_read_until e s)) = written s"
  by (simp add: ser_read_until_def split: prod.splits)

lemma send_command_eq:
  assumes "build_command_frame unit chan cmd txt = Inr f"
    and "ser_read_until CRLF (ser_write f s) = (resp, s')"
  shows "send_command unit chan cmd txt s =
           (Inr (if resp = [] then None else parse_response_frame resp), s')"
  using assms by (simp add: send_command_def split: option.splits)

lemma send_command_written:
  assumes "build_command_frame unit chan cmd txt = Inr f"
    and "ser_read_until CRLF (ser_write f s) = (resp, s')"
  shows "written s' = written s @ [f]"
proof -
  have "written s' = written (snd (ser_read_until CRLF (ser_write f s)))"
    by (simp add: assms(2))
  then show ?thesis
    by (simp only: written_ser_read_until written_ser_write)
qed

lemma parse_response_frame_NAK:
  "parse_response_frame resp = Some r \<Longrightarrow> (header_str r = str ''NAK'') = (resp ! 0 = 0x15)"
  by (auto simp: parse_response_frame_eq parse_header_NAK_iff split: if_splits)

lemma command_field:
  assumes "build_command_frame unit chan cmd txt = Inr f"
  shows "take 8 (drop (1 + length unit + length chan) f) =
           map of_nat (ljust cmd 8 (of_char CHR ''_''))"
  using assms by (auto simp: build_command_frame_eq ljust_def split: if_splits)

section \<open>The cut-out sequence stops at a failed first step\<close>

text \<open>
  C4: when the frame of the \<open>FF______\<close> command has been written and the read that
  follows returns nothing, bytes that do not parse, or a frame headed by NAK, then
  \<open>cut_out_amount\<close> returns \<open>False\<close> and the only frame written during the call is
  that \<open>FF______\<close> frame: the \<open>CFW_____\<close> frame is never sent.
\<close>

theorem cut_out_amount_stops_after_failed_write:
  assumes "build_command_frame unit chan (str ''FF______'') (str ''+'' @ format_010_3f amount) = Inr f"
    and "ser_read_until CRLF (ser_write f s) = (resp, s')"
    and "resp = [] \<or> parse_response_frame resp = None \<or> resp ! 0 = 0x15"
  shows "cut_out_amount unit chan amount s = (Inr False, s') \<and>
         written s' = written s @ [f] \<and>
         take 8 (drop (1 + length unit + length chan) f) = map of_nat (str ''FF______'') \<and>
         build_command_frame unit chan (str ''CFW_____'') [] \<noteq> Inr f"
proof (intro conjI)
  have sc: "send_command unit chan (str ''FF______'') (str ''+'' @ format_010_3f amount) s =
      (Inr (if resp = [] then None else parse_response_frame resp), s')"
    using assms(1,2) by (rule send_command_eq)
  show "cut_out_amount unit chan amount s = (Inr False, s')"
  proof (cases "resp = [] \<or> parse_response_frame resp = None")
    case True
    then show ?thesis
      by (auto simp: cut_out_amount_def sc)
  next
    case False
    then obtain r where r: "parse_response_frame resp = Some r" and ne: "resp \<noteq> []"
      by auto
    with assms(3) have "header_str r = str ''NAK''"
      by (simp add: parse_response_frame_NAK)
    then show ?thesis
      using r ne by (simp add: cut_out_amount_def sc)
  qed
  show "written s' = written s @ [f]"
    using assms(1,2) by (rule send_command_written)
  have l8: "length (str ''FF______'') = 8" "length (str ''CFW_____'') = 8"
    by (simp_all add: str_def)
  have ff: "take 8 (drop (1 + length unit + length chan) f) = map of_nat (str ''FF______'')"
    using command_field [OF assms(1)] l8 by (simp add: ljust_long)
  then show "take 8 (drop (1 + length unit + length chan) f) = map of_nat (str ''FF______'')" .
  show "build_command_frame unit chan (str ''CFW_____'') [] \<noteq> Inr f"
  proof
    assume "build_command_frame unit chan (str ''CFW_____'') [] = Inr f"
    then have "take 8 (drop (1 + length unit + length chan) f) = map of_nat (str ''CFW_____'')"
      using command_field [of unit chan "str ''CFW_____''" "[]" f] l8 by (simp add: ljust_long)
    with ff have "(map of_nat (str ''FF______'') :: bytes) = map of_nat (str ''CFW_____'')"
      by simp
    then show False
      by (simp add: str_def)
  qed
qed


theorem cut_out_amount_stops_after_failed_write_witness:
  "cut_out_amount (str ''00'') (str ''01'') (Finite False 120)
     (scripted_port [map of_nat (21 # str ''0001FF______E1'') @ CRLF,
                     map of_nat (6 # str ''0001CFW_____'') @ CRLF]) =
     (Inr False,
      \<lparr> link = [map of_nat (6 # str ''0001CFW_____'') @ CRLF],
        on_write = (\<lambda>frame q. q),
        on_read_until = (\<lambda>expected q. case q of [] \<Rightarrow> ([], []) | r # rs \<Rightarrow> (r, rs)),
        written = [map of_nat (5 # str ''0001FF______+000120.000'') @ CRLF] \<rparr>)"
proof -
  let ?f = "map of_nat (5 # str ''0001FF______+000120.000'') @ CRLF :: bytes"
  let ?nak = "map of_nat (21 # str ''0001FF______E1'') @ CRLF :: bytes"
  let ?ack = "map of_nat (6 # str ''0001CFW_____'') @ CRLF :: bytes"
  let ?s' = "\<lparr> link = [?ack], on_write = (\<lambda>frame q. q),
        on_read_until = (\<lambda>expected q. case q of [] \<Rightarrow> ([], []) | r # rs \<Rightarrow> (r, rs)),
        written = [?f] \<rparr> :: bytes list serial"
  have amount: "str ''+'' @ format_010_3f (Finite False 120) = str ''+000120.000''"
    by (simp add: format_010_3f_def str_def round_half_even_def digits10.simps
        replicate_numeral_unfold)
  have b: "build_command_frame (str ''00'') (str ''01'') (str ''FF______'')
             (str ''+'' @ format_010_3f (Finite False 120)) = Inr ?f"
    unfolding amount by (simp add: build_command_frame_def str_def CRLF_def)
  have r: "ser_read_until CRLF (ser_write ?f (scripted_port [?nak, ?ack])) = (?nak, ?s')"
    by (simp add: ser_read_until_def ser_write_def scripted_port_def)
  have n: "?nak = [] \<or> parse_response_frame ?nak = None \<or> ?nak ! 0 = 0x15"
    by simp
  from cut_out_amount_stops_after_failed_write [OF b r n] show ?thesis
    by (simp only:)
qed

section \<open>A transport that never answers\<close>

lemma send_command_no_reply:
  assumes "isascii unit" and "isascii chan" and "isascii cmd" and "length cmd \<le> 8"
    and "\<forall>f. fst (ser_read_until CRLF (ser_write f s)) = []"
  shows "fst (send_command unit chan cmd [] s) = Inr None"
proof -
  obtain f where f: "build_command_frame unit chan cmd [] = Inr f"
    using assms(1-4) by (simp add: build_command_frame_eq isascii_Nil)
  obtain resp s' where r: "ser_read_until CRLF (ser_write f s) = (resp, s')"
    by (cases "ser_read_until CRLF (ser_write f s)")
  have "resp = fst (ser_read_until CRLF (ser_write f s))"
    using r by simp
  then have "resp = []"
    using assms(5) by simp
  then show ?thesis
    by (simp add: send_command_eq [OF f r])
qed

text \<open>
  C7: on a transport whose read returns the empty byte string after whatever was written,
  \<open>get_current_weight\<close> returns \<open>None\<close> and \<open>discharge_all\<close> returns \<open>False\<close>
  (the unit and channel numbers being ASCII, so that the request is sent at all).
\<close>

theorem silent_transport_operations:
  assumes "isascii unit" and "isascii chan"
    and "\<forall>f. fst (ser_read_until CRLF (ser_write f s)) = []"
  shows "fst (get_current_weight float unit chan s) = Inr None \<and>
         fst (discharge_all unit chan s) = Inr False"
proof -
  have g: "isascii (str ''GROSS___'')" "length (str ''GROSS___'') \<le> 8"
    and d: "isascii (str ''FDIS____'')" "length (str ''FDIS____'') \<le> 8"
    by (simp_all add: str_def isascii_def)
  have "fst (send_command unit chan (str ''GROSS___'') [] s) = Inr None"
    using assms(1,2) g assms(3) by (rule send_command_no_reply)
  moreover have "fst (send_command unit chan (str ''FDIS____'') [] s) = Inr None"
    using assms(1,2) d assms(3) by (rule send_command_no_reply)
  ultimately show ?thesis
    by (auto simp: get_current_weight_def discharge_all_def split: prod.splits sum.splits option.splits)
qed

theorem silent_transport_operations_witness:
  "fst (get_current_weight (\<lambda>t. Some (Finite False 0)) (str ''00'') (str ''01'') (scripted_port []))
     = Inr None \<and>
   fst (discharge_all (str ''00'') (str ''01'') (scripted_port [])) = Inr False"
proof -
  have a: "isascii (str ''00'')" "isascii (str ''01'')"
    by (simp_all add: str_def isascii_def)
  have q: "\<forall>f. fst (ser_read_until CRLF (ser_write f (scripted_port []))) = []"
    by (simp add: ser_read_until_def ser_write_def scripted_port_def)
  from silent_transport_operations [OF a q] show ?thesis
    by blast
qed

section \<open>The failures of one exchange\<close>

text \<open>
  A port that never answers and a port that answers with three bytes, which do not parse,
  give \<open>send_command\<close> the same return value.
\<close>

theorem send_command_failures_counterexample:
  "fst (ser_read_until CRLF (scripted_port [])) = [] \<and>
   fst (ser_read_until CRLF (scripted_port [[0x02, 0x0D, 0x0A]])) = [0x02, 0x0D, 0x0A] \<and>
   parse_response_frame [0x02, 0x0D, 0x0A] = None \<and>
   fst (send_command (str ''00'') (str ''01'') (str ''GROSS___'') [] (scripted_port [])) =
   fst (send_command (str ''00'') (str ''01'') (str ''GROSS___'') []
          (scripted_port [[0x02, 0x0D, 0x0A]]))"
  by (simp add: send_command_def build_command_frame_def str_def ser_read_until_def
      ser_write_def scripted_port_def parse_response_frame_def)

text \<open>
  C5: once the request frame is written, \<open>send_command\<close> returns \<open>None\<close> when the
  read gave no bytes and returns the same \<open>None\<close> when the bytes read do not parse, so
  the value returned does not tell the two failures apart; any frame that parses is
  returned as it is.
\<close>

theorem send_command_failures_collapse:
  assumes "build_command_frame unit chan cmd txt = Inr f"
    and "ser_read_until CRLF (ser_write f s) = (resp, s')"
  shows "(resp = [] \<longrightarrow> send_command unit chan cmd txt s = (Inr None, s')) \<and>
         (resp \<noteq> [] \<and> parse_response_frame resp = None \<longrightarrow>
            send_command unit chan cmd txt s = (Inr None, s')) \<and>
         (\<forall>r. resp \<noteq> [] \<and> parse_response_frame resp = Some r \<longrightarrow>
            send_command unit chan cmd txt s = (Inr (Some r), s'))"
  by (simp add: send_command_eq [OF assms])


theorem send_command_failures_collapse_witness:
  "send_command (str ''00'') (str ''01'') (str ''GROSS___'') [] (scripted_port []) =
     (Inr None,
      \<lparr> link = [], on_write = (\<lambda>frame q. q),
        on_read_until = (\<lambda>expected q. case q of [] \<Rightarrow> ([], []) | r # rs \<Rightarrow> (r, rs)),
        written = [map of_nat (5 # str ''0001GROSS___'') @ CRLF] \<rparr>) \<and>
   send_command (str ''00'') (str ''01'') (str ''GROSS___'') []
       (scripted_port [[0x02, 0x0D, 0x0A]]) =
     (Inr None,
      \<lparr> link = [], on_write = (\<lambda>frame q. q),
        on_read_until = (\<lambda>expected q. case q of [] \<Rightarrow> ([], []) | r # rs \<Rightarrow> (r, rs)),
        written = [map of_nat (5 # str ''0001GROSS___'') @ CRLF] \<rparr>)"
proof -
  let ?f = "map of_nat (5 # str ''0001GROSS___'') @ CRLF :: bytes"
  let ?s' = "\<lparr> link = [], on_write = (\<lambda>frame q. q),
        on_read_until = (\<lambda>expected q. case q of [] \<Rightarrow> ([], []) | r # rs \<Rightarrow> (r, rs)),
        written = [?f] \<rparr> :: bytes list serial"
  have b: "build_command_frame (str ''00'') (str ''01'') (str ''GROSS___'') [] = Inr ?f"
    by (simp add: build_command_frame_def str_def CRLF_def)
  have r1: "ser_read_until CRLF (ser_write ?f (scripted_port [])) = ([], ?s')"
    by (simp add: ser_read_until_def ser_write_def scripted_port_def)
  have r2: "ser_read_until CRLF (ser_write ?f (scripted_port [[0x02, 0x0D, 0x0A]])) =
      ([0x02, 0x0D, 0x0A], ?s')"
    by (simp add: ser_read_until_def ser_write_def scripted_port_def)
  have m: "[0x02, 0x0D, 0x0A] \<noteq> ([] :: bytes) \<and> parse_response_frame [0x02, 0x0D, 0x0A] = None"
    by (simp add: parse_response_frame_def)
  from send_command_failures_collapse [OF b r1] send_command_failures_collapse [OF b r2] m
  show ?thesis
    by blast
qed

section \<open>The text of the cut-out amount\<close>

text \<open>
  C1: the width 10 of the format \<open>010.3f\<close> counts the whole field, decimal point and
  decimals included, so the amount 120.0 is sent as \<open>+000120.000\<close> and 0.5 as
  \<open>+000000.500\<close>, six digits before the point, and not as the \<open>+00000120.000\<close>
  that the comment beside the format describes.
\<close>

theorem cut_out_amount_text_width:
  "str ''+'' @ format_010_3f (Finite False 120) = str ''+000120.000'' \<and>
   str ''+'' @ format_010_3f (Finite False (1 / 2)) = str ''+000000.500'' \<and>
   written (snd (cut_out_amount (str ''00'') (str ''01'') (Finite False 120) (scripted_port []))) =
     [map of_nat (5 # str ''0001FF______+000120.000'') @ CRLF] \<and>
   str ''+000120.000'' \<noteq> str ''+00000120.000''"
proof -
  have a: "str ''+'' @ format_010_3f (Finite False 120) = str ''+000120.000''"
    by (simp add: format_010_3f_def str_def round_half_even_def digits10.simps
        replicate_numeral_unfold)
  have h: "str ''+'' @ format_010_3f (Finite False (1 / 2)) = str ''+000000.500''"
    by (simp add: format_010_3f_def str_def round_half_even_def digits10.simps
        replicate_numeral_unfold)
  let ?f = "map of_nat (5 # str ''0001FF______+000120.000'') @ CRLF :: bytes"
  have b: "build_command_frame (str ''00'') (str ''01'') (str ''FF______'')
             (str ''+'' @ format_010_3f (Finite False 120)) = Inr ?f"
    unfolding a by (simp add: build_command_frame_def str_def CRLF_def)
  obtain s' where r: "ser_read_until CRLF (ser_write ?f (scripted_port [])) = ([], s')"
    by (simp add: ser_read_until_def ser_write_def scripted_port_def)
  have w: "written s' = written (scripted_port []) @ [?f]"
    using b r by (rule send_command_written)
  have "cut_out_amount (str ''00'') (str ''01'') (Finite False 120) (scripted_port []) =
      (Inr False, s')"
    by (simp add: cut_out_amount_def send_command_eq [OF b r])
  then have "written (snd (cut_out_amount (str ''00'') (str ''01'') (Finite False 120)
      (scripted_port []))) = [?f]"
    using w by (simp add: scripted_port_def)
  moreover have "str ''+000120.000'' \<noteq> str ''+00000120.000''"
    by (simp add: str_def)
  ultimately show ?thesis
    using a h by blast
qed

end
